theory Spec2Isabelle
  imports
    Complex_Main
    "HOL-Library.Char_ord"
    "HOL-Library.List_Lexorder"
    "HOL-Library.Product_Lexorder"
    "HOL-Library.Multiset"
begin

section \<open>The card ranker (src/lib/ranker.js)\<close>

text \<open>
  The valuation engine is a handful of pure JavaScript functions over JSON-shaped
  records. The embedding follows the source function by function.

  \<^item> A JavaScript number is an exact rational here (\<^typ>\<open>rat\<close>): the catalogues are
    JSON, which has neither NaN nor an infinity, and the rounding of IEEE doubles is not
    part of the model. A numeric field that may be absent (\<open>undefined\<close>, \<open>null\<close>) is a
    \<^typ>\<open>rat option\<close>; \<open>Number.isFinite\<close> is then "the field is present".
  \<^item> A string is a \<^typ>\<open>string\<close>; \<open><\<close> and \<open>>\<close> on strings are the lexicographic order
    of the characters, as JavaScript compares two strings.
  \<^item> A plain object used as a dictionary is a map; a \<open>Set\<close> is a set. Keys that name
    members of \<open>Object.prototype\<close> are not modelled.
  \<^item> The notes are template strings in the source. Each template is a constructor of
    \<open>note_msg\<close> that carries the numbers the template prints; the decimal rendering
    (\<open>toFixed\<close>) is not modelled.
\<close>

subsection \<open>Truthiness and defaults\<close>

definition truthy_num :: "rat option \<Rightarrow> bool" where
  "truthy_num v = (case v of None \<Rightarrow> False | Some x \<Rightarrow> x \<noteq> 0)"

definition truthy_str :: "string option \<Rightarrow> bool" where
  "truthy_str v = (case v of None \<Rightarrow> False | Some s \<Rightarrow> s \<noteq> [])"

text \<open>\<open>a || b\<close> on two optional numbers: \<open>a\<close> when it is truthy, else \<open>b\<close> whatever it is.\<close>

definition num_or :: "rat option \<Rightarrow> rat option \<Rightarrow> rat option" where
  "num_or a b = (if truthy_num a then a else b)"

text \<open>\<open>Number(x) || d\<close>: an absent field and the number 0 both give \<open>d\<close>.\<close>

definition number_or :: "rat option \<Rightarrow> rat \<Rightarrow> rat" where
  "number_or v d = (case v of None \<Rightarrow> d | Some x \<Rightarrow> if x = 0 then d else x)"

definition CPP_DEFAULTS :: "string \<rightharpoonup> rat" where
  "CPP_DEFAULTS = [''UR'' \<mapsto> 5 / 4, ''MR'' \<mapsto> 1, ''Cap1'' \<mapsto> 1, ''TYP'' \<mapsto> 1]"

subsection \<open>Utilities\<close>

definition clampNum :: "rat \<Rightarrow> rat \<Rightarrow> rat \<Rightarrow> rat" where
  "clampNum n lo hi = max lo (min hi n)"

definition toISOEndOfDay :: "string \<Rightarrow> string" where
  "toISOEndOfDay dateStr = dateStr @ ''T23:59:59Z''"

definition toISOStartOfDay :: "string \<Rightarrow> string" where
  "toISOStartOfDay dateStr = dateStr @ ''T00:00:00Z''"

definition isWithin :: "string \<Rightarrow> string option \<Rightarrow> string option \<Rightarrow> bool" where
  "isWithin nowISO startISO endISO =
     (if (case startISO of None \<Rightarrow> False | Some s \<Rightarrow> s \<noteq> [] \<and> nowISO < s) then False
      else if (case endISO of None \<Rightarrow> False | Some e \<Rightarrow> e \<noteq> [] \<and> nowISO > e) then False
      else True)"

subsection \<open>Data\<close>

record rotating_rule =
  rule_start :: "string option"
  rule_end :: "string option"
  rule_category_ids :: "string list option"
  rule_rate :: "rat option"
  rule_after_rate :: "rat option"
  rule_cap_cents :: "rat option"
  rule_activation_required :: bool

record card =
  card_id :: string
  card_program :: string
  card_type :: "string option"
  card_base :: "rat option"
  card_cpp_default :: "rat option"
  card_categories :: "(string \<rightharpoonup> rat) option"
  card_rotating_rules :: "rotating_rule list option"

record user_rotating_state =
  u_activated :: bool
  u_remainingCapCents :: "rat option"

record window =
  active :: bool
  reason :: "string option"
  boostRatePercent :: rat
  afterRatePercent :: "rat option"
  remainingCapCents :: rat

record cap_split =
  boostVal :: rat
  baseVal :: rat
  boostCents :: rat
  baseCents :: rat

text \<open>
  \<open>card_scope\<close> is JSON: the string \<open>"all"\<close>, an array of card ids, or anything else
  (absent, \<open>null\<close>, another string, a number, an object).
\<close>

datatype card_scope = ScopeAll | ScopeIds "string list" | ScopeOther

record offer_value =
  fixed_amount :: "rat option"
  percent :: "rat option"
  points_multiplier :: "rat option"
  max_back_cents :: "rat option"
  max_amount_cents :: "rat option"

record offer =
  off_id :: string
  off_offer_type :: string
  off_value :: "offer_value option"
  off_min_spend_cents :: "rat option"
  off_categories :: "string list option"
  off_card_scope :: card_scope
  off_start_at :: "string option"
  off_end_at :: "string option"
  off_enrollment_required :: bool

record params =
  amountCents :: rat
  categoryId :: string
  programOverrides :: "string \<rightharpoonup> rat"
  nowISO :: string
  userRotating :: "string \<rightharpoonup> user_rotating_state"
  userEnrolledOfferIds :: "string set"

text \<open>
  The notes, one constructor per template of the source:
  \<^item> \<open>NoteRotating bp d\<close>: \<open>Rotating {bp}% applied to {money(d)} (cap remaining)\<close>
  \<^item> \<open>NoteActivationRequired\<close>: \<open>Activation required for rotating bonus\<close>
  \<^item> \<open>NoteRequiresEnrollment\<close>: \<open>Offer requires enrollment\<close>
  \<^item> \<open>NoteStatementCredit d\<close>: \<open>{money(d)} statement credit\<close>
  \<^item> \<open>NotePercentBack p\<close>: \<open>{p}% back\<close>
  \<^item> \<open>NotePercentBackCapped p d\<close>: \<open>{p}% back (capped at {money(d)})\<close>
  \<^item> \<open>NotePoints x\<close>: \<open>+{x}x points\<close>
\<close>

datatype note_msg =
    NoteRotating rat rat
  | NoteActivationRequired
  | NoteRequiresEnrollment
  | NoteStatementCredit rat
  | NotePercentBack rat
  | NotePercentBackCapped rat rat
  | NotePoints rat

record valuation =
  dollars :: rat
  baseValue :: rat
  bonusValue :: rat
  notesList :: "note_msg list"

record ranked = valuation +
  card :: card

subsection \<open>Rotating helpers\<close>

text \<open>The test of one rule in the loop of \<open>activeRotatingWindow\<close>: neither \<open>continue\<close> fires.\<close>

definition rule_matches :: "rotating_rule \<Rightarrow> string \<Rightarrow> string \<Rightarrow> bool" where
  "rule_matches r cat now =
     (let start = (if truthy_str (rule_start r)
                   then map_option toISOStartOfDay (rule_start r) else None);
          end_iso = (if truthy_str (rule_end r)
                     then map_option toISOEndOfDay (rule_end r) else None)
      in if \<not> isWithin now start end_iso then False
         else (case rule_category_ids r of None \<Rightarrow> False | Some cs \<Rightarrow> cat \<in> set cs))"

text \<open>The body of the loop after the two \<open>continue\<close> tests: the descriptor that is returned.\<close>

definition resolve_window ::
  "rotating_rule \<Rightarrow> string \<Rightarrow> (string \<rightharpoonup> user_rotating_state) \<Rightarrow> window" where
  "resolve_window r cid ur =
     (let u = (case ur cid of None \<Rightarrow> \<lparr>u_activated = False, u_remainingCapCents = None\<rparr>
               | Some s \<Rightarrow> s);
          needsActivation = rule_activation_required r;
          activated = (if needsActivation then u_activated u else True);
          capCents = (case rule_cap_cents r of None \<Rightarrow> 0 | Some c \<Rightarrow> max 0 c);
          remaining = max 0 (case u_remainingCapCents u of None \<Rightarrow> capCents | Some x \<Rightarrow> x)
      in \<lparr>active = activated,
          reason = (if activated then None else Some ''Activation required''),
          boostRatePercent = number_or (rule_rate r) 0,
          afterRatePercent = rule_after_rate r,
          remainingCapCents = remaining\<rparr>)"

fun scan_rules ::
  "rotating_rule list \<Rightarrow> string \<Rightarrow> string \<Rightarrow> string \<Rightarrow> (string \<rightharpoonup> user_rotating_state)
     \<Rightarrow> window option" where
  "scan_rules [] cid cat now ur = None"
| "scan_rules (r # rs) cid cat now ur =
     (if rule_matches r cat now then Some (resolve_window r cid ur)
      else scan_rules rs cid cat now ur)"

definition activeRotatingWindow ::
  "card \<Rightarrow> string \<Rightarrow> string \<Rightarrow> (string \<rightharpoonup> user_rotating_state) \<Rightarrow> window option" where
  "activeRotatingWindow c cat now ur =
     (case card_rotating_rules c of
        None \<Rightarrow> None
      | Some rules \<Rightarrow> if rules = [] then None else scan_rules rules (card_id c) cat now ur)"

definition applyCapSplitPercent :: "rat \<Rightarrow> rat \<Rightarrow> rat \<Rightarrow> rat \<Rightarrow> cap_split" where
  "applyCapSplitPercent amount_cents boostPercent basePercent remaining =
     (let bc = min amount_cents (max 0 remaining);
          sc = amount_cents - bc
      in \<lparr>boostVal = (bc / 100) * (boostPercent / 100),
          baseVal = (sc / 100) * (basePercent / 100),
          boostCents = bc,
          baseCents = sc\<rparr>)"

subsection \<open>Offer helpers\<close>

definition offerAppliesToCard :: "offer \<Rightarrow> card \<Rightarrow> bool" where
  "offerAppliesToCard off c =
     (case off_card_scope off of
        ScopeAll \<Rightarrow> True
      | ScopeIds ids \<Rightarrow> card_id c \<in> set ids
      | ScopeOther \<Rightarrow> False)"

definition offerMatchesCategory :: "offer \<Rightarrow> string \<Rightarrow> bool" where
  "offerMatchesCategory off cat =
     (case off_categories off of
        None \<Rightarrow> True
      | Some cs \<Rightarrow> if cs = [] then True else cat \<in> set cs)"

definition offerActiveNow :: "offer \<Rightarrow> string \<Rightarrow> bool" where
  "offerActiveNow off now =
     (let startISO = (if truthy_str (off_start_at off) then off_start_at off else None);
          endISO = (if truthy_str (off_end_at off) then off_end_at off else None)
      in isWithin now startISO endISO)"

subsection \<open>The value calculator\<close>

definition resolve_cpp :: "card \<Rightarrow> (string \<rightharpoonup> rat) \<Rightarrow> rat" where
  "resolve_cpp c overrides =
     (case overrides (card_program c) of
        Some v \<Rightarrow> v
      | None \<Rightarrow>
          (case card_cpp_default c of
             Some v \<Rightarrow> v
           | None \<Rightarrow>
               (case CPP_DEFAULTS (card_program c) of
                  Some v \<Rightarrow> v
                | None \<Rightarrow> 1)))"

definition resolve_type :: "card \<Rightarrow> string" where
  "resolve_type c = (case card_type c of
                       None \<Rightarrow> ''points''
                     | Some t \<Rightarrow> if t = [] then ''points'' else t)"

definition staticMult :: "card \<Rightarrow> string \<Rightarrow> rat" where
  "staticMult c cat =
     (let cats = (case card_categories c of None \<Rightarrow> Map.empty | Some m \<Rightarrow> m)
      in case cats cat of
           Some v \<Rightarrow> v
         | None \<Rightarrow> number_or (card_base c) 1)"

text \<open>
  Step 1 of \<open>valueFor\<close>, the base earnings: the values of \<open>baseValue\<close>, \<open>bonusValue\<close>
  and \<open>notes\<close> when the loop over the offers starts.
\<close>

definition base_earnings :: "card \<Rightarrow> params \<Rightarrow> rat \<times> rat \<times> note_msg list" where
  "base_earnings c p =
     (let amount = amountCents p / 100;
          cpp = resolve_cpp c (programOverrides p);
          mult = staticMult c (categoryId p)
      in if resolve_type c = ''cashback'' then
           (case activeRotatingWindow c (categoryId p) (nowISO p) (userRotating p) of
              None \<Rightarrow> (amount * (mult / 100), 0, [])
            | Some win \<Rightarrow>
                if active win then
                  (let boostPercent = boostRatePercent win;
                       afterPercent = (case afterRatePercent win of
                                         Some a \<Rightarrow> a | None \<Rightarrow> mult);
                       sp = applyCapSplitPercent (amountCents p) boostPercent afterPercent
                              (remainingCapCents win)
                   in (baseVal sp, boostVal sp,
                       [NoteRotating boostPercent (boostCents sp / 100)]))
                else (amount * (mult / 100), 0, [NoteActivationRequired]))
         else (amount * mult * (cpp / 100), 0, []))"

text \<open>
  The percent branch shared by \<open>statement_credit\<close> and \<open>percent_back\<close>: the offer's value
  and its note, from the percent \<open>p\<close> and the value record.
\<close>

definition percent_offer :: "rat \<Rightarrow> rat \<Rightarrow> offer_value option \<Rightarrow> rat \<times> note_msg" where
  "percent_offer amount pc v =
     (let offerValue = amount * (pc / 100);
          maxBackCents = (case v of None \<Rightarrow> None
                          | Some w \<Rightarrow> num_or (max_back_cents w) (max_amount_cents w))
      in case maxBackCents of
           None \<Rightarrow> (offerValue, NotePercentBack pc)
         | Some m \<Rightarrow>
             if m \<noteq> 0 then
               (let maxBackDollars = m / 100
                in (min offerValue maxBackDollars, NotePercentBackCapped pc maxBackDollars))
             else (offerValue, NotePercentBack pc))"

text \<open>
  One iteration of the loop over \<open>offersForCard\<close>, on the pair (bonusValue, notes).
  Under the guard \<open>truthy_num x\<close>, \<open>number_or x 0\<close> is the value of the field \<open>x\<close>.
\<close>

definition offer_step ::
  "card \<Rightarrow> params \<Rightarrow> rat \<times> note_msg list \<Rightarrow> offer \<Rightarrow> rat \<times> note_msg list" where
  "offer_step c p st off =
     (let amount = amountCents p / 100;
          cpp = resolve_cpp c (programOverrides p);
          bonus = fst st;
          ns = snd st
      in if \<not> offerActiveNow off (nowISO p) then st
         else if \<not> offerAppliesToCard off c then st
         else if \<not> offerMatchesCategory off (categoryId p) then st
         else if off_enrollment_required off \<and> off_id off \<notin> userEnrolledOfferIds p then
           (if NoteRequiresEnrollment \<in> set ns then st
            else (bonus, ns @ [NoteRequiresEnrollment]))
         else if off_offer_type off = ''statement_credit'' then
           (let min_spend = number_or (off_min_spend_cents off) 0
            in if amountCents p \<ge> min_spend then
                 (case off_value off of
                    None \<Rightarrow> st
                  | Some v \<Rightarrow>
                      if truthy_num (fixed_amount v) then
                        (let f = number_or (fixed_amount v) 0
                         in (bonus + f / 100, ns @ [NoteStatementCredit (f / 100)]))
                      else if truthy_num (percent v) then
                        (let r = percent_offer amount (number_or (percent v) 0) (off_value off)
                         in (bonus + fst r, ns @ [snd r]))
                      else st)
               else st)
         else if off_offer_type off = ''percent_back'' then
           (let pc = number_or (case off_value off of None \<Rightarrow> None | Some v \<Rightarrow> percent v) 0;
                r = percent_offer amount pc (off_value off)
            in (bonus + fst r, ns @ [snd r]))
         else if off_offer_type off = ''points_multiplier'' then
           (let extraX = number_or (case off_value off of None \<Rightarrow> None
                                    | Some v \<Rightarrow> points_multiplier v) 0
            in if resolve_type c = ''cashback''
               then (bonus + amount * (extraX / 100), ns @ [NotePoints extraX])
               else (bonus + amount * extraX * (cpp / 100), ns @ [NotePoints extraX]))
         else st)"

definition valueFor :: "card \<Rightarrow> params \<Rightarrow> offer list \<Rightarrow> valuation" where
  "valueFor c p offersForCard =
     (let (base, bonus0, notes0) = base_earnings c p;
          (bonus, ns) = foldl (offer_step c p) (bonus0, notes0) offersForCard
      in \<lparr>dollars = base + bonus, baseValue = base, bonusValue = bonus, notesList = ns\<rparr>)"

subsection \<open>The ranking\<close>

text \<open>The comparator handed to \<open>results.sort\<close>.\<close>

definition compareResults :: "ranked \<Rightarrow> ranked \<Rightarrow> rat" where
  "compareResults a b =
     (if dollars b \<noteq> dollars a then dollars b - dollars a
      else bonusValue b - bonusValue a)"

text \<open>
  \<open>Array.prototype.sort\<close> is a stable sort (ECMAScript 2019): an element goes before
  another when the comparator is negative, after it when positive, and the two keep
  their order when it is zero. It is modelled as stable insertion sort on the sign of the
  comparator.
\<close>

fun sort_insert :: "('a \<Rightarrow> 'a \<Rightarrow> rat) \<Rightarrow> 'a \<Rightarrow> 'a list \<Rightarrow> 'a list" where
  "sort_insert cmp x [] = [x]"
| "sort_insert cmp x (y # ys) =
     (if cmp x y \<le> 0 then x # y # ys else y # sort_insert cmp x ys)"

definition array_sort :: "('a \<Rightarrow> 'a \<Rightarrow> rat) \<Rightarrow> 'a list \<Rightarrow> 'a list" where
  "array_sort cmp xs = foldr (sort_insert cmp) xs []"

text \<open>
  The body of the loop of \<open>rankCards\<close>: the offers of the card
  (\<open>offersByCard[card.id] || []\<close>) and the entry pushed for it.
\<close>

definition offers_for :: "(string \<rightharpoonup> offer list) \<Rightarrow> card \<Rightarrow> offer list" where
  "offers_for offersByCard c =
     (case offersByCard (card_id c) of None \<Rightarrow> [] | Some os \<Rightarrow> os)"

definition rank_entry :: "params \<Rightarrow> (string \<rightharpoonup> offer list) \<Rightarrow> card \<Rightarrow> ranked" where
  "rank_entry p offersByCard c =
     (let offers = offers_for offersByCard c;
          v = valueFor c p offers
      in \<lparr>dollars = dollars v, baseValue = baseValue v, bonusValue = bonusValue v,
          notesList = notesList v, card = c\<rparr>)"

definition rankCards :: "card list \<Rightarrow> params \<Rightarrow> (string \<rightharpoonup> offer list) \<Rightarrow> ranked list" where
  "rankCards cards p offersByCard =
     array_sort compareResults (map (rank_entry p offersByCard) cards)"

subsection \<open>Paths through the offer loop\<close>

text \<open>
  Names for the paths of one iteration of the offer loop, used to state the properties.
  An offer passes the filters when none of the four \<open>continue\<close> statements fires.
\<close>

definition passes_filters :: "card \<Rightarrow> params \<Rightarrow> offer \<Rightarrow> bool" where
  "passes_filters c p off \<longleftrightarrow>
     offerActiveNow off (nowISO p) \<and> offerAppliesToCard off c
     \<and> offerMatchesCategory off (categoryId p)
     \<and> \<not> (off_enrollment_required off \<and> off_id off \<notin> userEnrolledOfferIds p)"

text \<open>
  The offer reaches the percent computation: it is a \<open>percent_back\<close> offer, or a
  \<open>statement_credit\<close> offer at or above its minimum spend with no truthy \<open>fixed_amount\<close>
  and a truthy \<open>percent\<close>.
\<close>

definition percent_branch :: "params \<Rightarrow> offer \<Rightarrow> bool" where
  "percent_branch p off \<longleftrightarrow>
     off_offer_type off = ''percent_back''
     \<or> (off_offer_type off = ''statement_credit''
        \<and> number_or (off_min_spend_cents off) 0 \<le> amountCents p
        \<and> (case off_value off of None \<Rightarrow> False
            | Some v \<Rightarrow> \<not> truthy_num (fixed_amount v) \<and> truthy_num (percent v)))"

definition offer_percent :: "offer \<Rightarrow> rat" where
  "offer_percent off =
     number_or (case off_value off of None \<Rightarrow> None | Some v \<Rightarrow> percent v) 0"

text \<open>
  The cap an offer configures, stated apart from the code: the first of \<open>max_back_cents\<close>,
  \<open>max_amount_cents\<close> that is present and not zero.
\<close>

definition configured_cap :: "offer \<Rightarrow> rat option" where
  "configured_cap off =
     (case off_value off of
        None \<Rightarrow> None
      | Some v \<Rightarrow>
          if truthy_num (max_back_cents v) then max_back_cents v
          else if truthy_num (max_amount_cents v) then max_amount_cents v
          else None)"

text \<open>The enrollment gate: the offer requires enrollment and its id is not enrolled.\<close>

definition not_enrolled :: "params \<Rightarrow> offer \<Rightarrow> bool" where
  "not_enrolled p off \<longleftrightarrow>
     off_enrollment_required off \<and> off_id off \<notin> userEnrolledOfferIds p"

text \<open>The offer is skipped at the enrollment gate: it passes the three filters before it.\<close>

definition enrollment_gated :: "card \<Rightarrow> params \<Rightarrow> offer \<Rightarrow> bool" where
  "enrollment_gated c p off \<longleftrightarrow>
     offerActiveNow off (nowISO p) \<and> offerAppliesToCard off c
     \<and> offerMatchesCategory off (categoryId p) \<and> not_enrolled p off"

subsection \<open>The window of a rotating rule, as specified\<close>

text \<open>
  The window of a rule in the words of the specification, to be compared with the test
  the code makes: \<open>start\<close> and \<open>end\<close> are calendar dates, both inclusive, and the window
  runs from the start of the day \<open>start\<close> to the end of the day \<open>end\<close> in UTC; an absent
  date leaves that side unbounded. An instant is in the window exactly when its UTC
  calendar date is. The date of an instant \<open>YYYY-MM-DDTHH:mm:ss.sssZ\<close> is its first ten
  characters, and dates \<open>YYYY-MM-DD\<close> are ordered as their strings are.
\<close>

definition utc_date :: "string \<Rightarrow> string" where
  "utc_date instant = take 10 instant"

definition spec_window_contains :: "rotating_rule \<Rightarrow> string \<Rightarrow> bool" where
  "spec_window_contains r now \<longleftrightarrow>
     (case rule_start r of None \<Rightarrow> True | Some s \<Rightarrow> s = [] \<or> s \<le> utc_date now)
     \<and> (case rule_end r of None \<Rightarrow> True | Some e \<Rightarrow> e = [] \<or> utc_date now \<le> e)"

definition spec_rule_matches :: "rotating_rule \<Rightarrow> string \<Rightarrow> string \<Rightarrow> bool" where
  "spec_rule_matches r cat now \<longleftrightarrow>
     spec_window_contains r now
     \<and> (case rule_category_ids r of None \<Rightarrow> False | Some cs \<Rightarrow> cat \<in> set cs)"

text \<open>The dates of a rule have the ten characters of \<open>YYYY-MM-DD\<close>, when present.\<close>

definition date_shaped :: "string option \<Rightarrow> bool" where
  "date_shaped d = (case d of None \<Rightarrow> True | Some s \<Rightarrow> s = [] \<or> length s = 10)"

definition rule_dates_shaped :: "rotating_rule \<Rightarrow> bool" where
  "rule_dates_shaped r \<longleftrightarrow> date_shaped (rule_start r) \<and> date_shaped (rule_end r)"

text \<open>
  The time of day of an instant, the text after its date, is not in the first second of
  the day. For an instant \<open>YYYY-MM-DDTHH:mm:ss.sssZ\<close> the upper bound always holds, and
  the lower bound holds exactly when \<open>HH:mm:ss\<close> is not \<open>00:00:00\<close>: the character
  \<open>.\<close> is below \<open>Z\<close>.
\<close>

definition past_first_second :: "string \<Rightarrow> bool" where
  "past_first_second now \<longleftrightarrow>
     10 \<le> length now \<and> ''T00:00:00Z'' \<le> drop 10 now \<and> drop 10 now \<le> ''T23:59:59Z''"

subsection \<open>Vocabulary of the ranking and monotonicity properties\<close>

text \<open>
  The sort key the comparator stands for: the comparator is at most zero exactly when
  the key of its first argument is at most the key of its second, in the lexicographic
  order of pairs.
\<close>

definition rank_key :: "ranked \<Rightarrow> rat \<times> rat" where
  "rank_key r = (- dollars r, - bonusValue r)"

text \<open>
  Non-negative data. Only the entries that a valuation of card \<open>c\<close> under \<open>p\<close> reads are
  constrained: the card's rate for the purchase category, the override of the card's
  program, the remaining cap of the card.
\<close>

definition nonneg :: "rat option \<Rightarrow> bool" where
  "nonneg v = (case v of None \<Rightarrow> True | Some x \<Rightarrow> 0 \<le> x)"

definition rule_nonneg :: "rotating_rule \<Rightarrow> bool" where
  "rule_nonneg r \<longleftrightarrow>
     nonneg (rule_rate r) \<and> nonneg (rule_after_rate r) \<and> nonneg (rule_cap_cents r)"

definition card_nonneg :: "card \<Rightarrow> params \<Rightarrow> bool" where
  "card_nonneg c p \<longleftrightarrow>
     nonneg (card_base c) \<and> nonneg (card_cpp_default c)
     \<and> nonneg (case card_categories c of None \<Rightarrow> None | Some m \<Rightarrow> m (categoryId p))
     \<and> nonneg (programOverrides p (card_program c))
     \<and> nonneg (case userRotating p (card_id c) of None \<Rightarrow> None
                | Some u \<Rightarrow> u_remainingCapCents u)
     \<and> (case card_rotating_rules c of None \<Rightarrow> True | Some rs \<Rightarrow> list_all rule_nonneg rs)"

text \<open>The rates, multipliers and caps of an offer are non-negative.\<close>

definition offer_nonneg :: "offer \<Rightarrow> bool" where
  "offer_nonneg off \<longleftrightarrow>
     (case off_value off of
        None \<Rightarrow> True
      | Some v \<Rightarrow> nonneg (percent v) \<and> nonneg (points_multiplier v)
                  \<and> nonneg (max_back_cents v) \<and> nonneg (max_amount_cents v))"

text \<open>The fixed statement credit of an offer is non-negative.\<close>

definition credit_nonneg :: "offer \<Rightarrow> bool" where
  "credit_nonneg off \<longleftrightarrow>
     (case off_value off of None \<Rightarrow> True | Some v \<Rightarrow> nonneg (fixed_amount v))"

text \<open>What step 1 of \<open>valueFor\<close> contributes to \<open>dollars\<close>: base value plus rotating boost.\<close>

definition base_total :: "card \<Rightarrow> params \<Rightarrow> rat" where
  "base_total c p = fst (base_earnings c p) + fst (snd (base_earnings c p))"

subsection \<open>Sample data\<close>

definition ex_rule :: rotating_rule where
  "ex_rule = \<lparr>rule_start = Some ''2025-01-01'', rule_end = Some ''2025-03-31'',
     rule_category_ids = Some [''grocery''], rule_rate = Some 5, rule_after_rate = Some 1,
     rule_cap_cents = Some 150000, rule_activation_required = True\<rparr>"

definition ex_cash :: card where
  "ex_cash = \<lparr>card_id = ''cash'', card_program = ''cashback'', card_type = Some ''cashback'',
     card_base = Some 1, card_cpp_default = None,
     card_categories = Some [''grocery'' \<mapsto> 3], card_rotating_rules = None\<rparr>"

definition ex_points :: card where
  "ex_points = \<lparr>card_id = ''pts'', card_program = ''UR'', card_type = Some ''points'',
     card_base = Some 1, card_cpp_default = None,
     card_categories = Some [''grocery'' \<mapsto> 2], card_rotating_rules = None\<rparr>"

definition ex_params :: params where
  "ex_params = \<lparr>amountCents = 50000, categoryId = ''grocery'', programOverrides = Map.empty,
     nowISO = ''2025-02-01T10:00:00.000Z'', userRotating = Map.empty,
     userEnrolledOfferIds = {}\<rparr>"

definition ex_value :: offer_value where
  "ex_value = \<lparr>fixed_amount = None, percent = Some 10, points_multiplier = None,
     max_back_cents = None, max_amount_cents = None\<rparr>"

definition ex_offer :: offer where
  "ex_offer = \<lparr>off_id = ''o1'', off_offer_type = ''percent_back'', off_value = Some ex_value,
     off_min_spend_cents = None, off_categories = None, off_card_scope = ScopeAll,
     off_start_at = None, off_end_at = None, off_enrollment_required = False\<rparr>"

definition ex_wallet :: "card list" where
  "ex_wallet =
     [ex_points,
      ex_cash,
      ex_cash\<lparr>card_id := ''cashb'', card_categories := Some [''grocery'' \<mapsto> 1]\<rparr>,
      ex_cash\<lparr>card_id := ''cash2''\<rparr>,
      ex_cash\<lparr>card_id := ''cash5'', card_categories := Some [''grocery'' \<mapsto> 5]\<rparr>]"

definition ex_offers_by_card :: "string \<rightharpoonup> offer list" where
  "ex_offers_by_card =
     [''cashb'' \<mapsto> [ex_offer\<lparr>off_value := Some (ex_value\<lparr>percent := Some 2\<rparr>)\<rparr>]]"

definition ex_credit :: offer where
  "ex_credit = ex_offer\<lparr>off_offer_type := ''statement_credit'',
     off_min_spend_cents := Some 1000,
     off_value := Some (ex_value\<lparr>fixed_amount := Some 500, percent := None\<rparr>)\<rparr>"

definition ex_negative_credit :: offer where
  "ex_negative_credit = ex_offer\<lparr>off_offer_type := ''statement_credit'',
     off_min_spend_cents := Some 1000,
     off_value := Some (ex_value\<lparr>fixed_amount := Some (- 500), percent := None\<rparr>)\<rparr>"

lemmas ex_defs =
  ex_rule_def ex_cash_def ex_points_def ex_params_def ex_value_def ex_offer_def

lemmas ranker_defs =
  truthy_num_def truthy_str_def num_or_def number_or_def CPP_DEFAULTS_def
  toISOEndOfDay_def toISOStartOfDay_def isWithin_def rule_matches_def resolve_window_def
  activeRotatingWindow_def applyCapSplitPercent_def offerAppliesToCard_def
  offerMatchesCategory_def offerActiveNow_def resolve_cpp_def resolve_type_def staticMult_def
  base_earnings_def percent_offer_def offer_step_def valueFor_def

section \<open>Properties\<close>

subsection \<open>The cap split\<close>

text \<open>
  Claim C2. For every amount and remaining cap the cap split has
  \<open>boostCents = min(amountCents, max(0, remainingCapCents))\<close> and
  \<open>baseCents = amountCents - boostCents\<close>; the two add up to the amount, the boosted
  part is at most the remaining cap clamped at zero, and each value is its portion (in
  dollars) at its percent.
\<close>

theorem applyCapSplitPercent_conserves:
  "boostCents (applyCapSplitPercent a bp sp r) = min a (max 0 r)
   \<and> baseCents (applyCapSplitPercent a bp sp r) = a - boostCents (applyCapSplitPercent a bp sp r)
   \<and> boostCents (applyCapSplitPercent a bp sp r) + baseCents (applyCapSplitPercent a bp sp r) = a
   \<and> boostCents (applyCapSplitPercent a bp sp r) \<le> max 0 r
   \<and> boostVal (applyCapSplitPercent a bp sp r)
        = (boostCents (applyCapSplitPercent a bp sp r) / 100) * (bp / 100)
   \<and> baseVal (applyCapSplitPercent a bp sp r)
        = (baseCents (applyCapSplitPercent a bp sp r) / 100) * (sp / 100)"
  by (simp add: applyCapSplitPercent_def Let_def)

subsection \<open>The card scope of an offer\<close>

lemma offer_step_scope_other:
  "off_card_scope off = ScopeOther \<Longrightarrow> offer_step c p st off = st"
  by (simp add: offer_step_def offerAppliesToCard_def Let_def)

text \<open>
  Claim C10. An offer whose \<open>card_scope\<close> is neither \<open>"all"\<close> nor an array fails the
  card-scope filter for every card, and a valuation is the same with the offer in the
  list (at any position) as without it: no value and no note comes from it.
\<close>

theorem scope_other_never_applies:
  assumes "off_card_scope off = ScopeOther"
  shows "\<not> offerAppliesToCard off c
         \<and> valueFor c p (pre @ off # post) = valueFor c p (pre @ post)"
proof
  show "\<not> offerAppliesToCard off c"
    using assms by (simp add: offerAppliesToCard_def)
next
  have "foldl (offer_step c p) st (pre @ off # post) = foldl (offer_step c p) st (pre @ post)"
    for st
    by (simp add: offer_step_scope_other [OF assms])
  then show "valueFor c p (pre @ off # post) = valueFor c p (pre @ post)"
    unfolding valueFor_def by simp
qed

theorem scope_other_never_applies_witness:
  "off_card_scope (ex_offer\<lparr>off_card_scope := ScopeOther\<rparr>) = ScopeOther
   \<and> \<not> offerAppliesToCard (ex_offer\<lparr>off_card_scope := ScopeOther\<rparr>) ex_cash
   \<and> valueFor ex_cash ex_params ([ex_offer] @ ex_offer\<lparr>off_card_scope := ScopeOther\<rparr> # [])
       = valueFor ex_cash ex_params ([ex_offer] @ [])"
proof -
  have h: "off_card_scope (ex_offer\<lparr>off_card_scope := ScopeOther\<rparr>) = ScopeOther"
    by simp
  show ?thesis
    using h scope_other_never_applies [OF h, of ex_cash ex_params "[ex_offer]" "[]"]
    by blast
qed

subsection \<open>The active window of an offer\<close>





subsection \<open>Percent offers: the cap and its note\<close>

lemma percent_offer_cap:
  "percent_offer amount pc (off_value off) =
     (case configured_cap off of
        None \<Rightarrow> (amount * (pc / 100), NotePercentBack pc)
      | Some m \<Rightarrow> (min (amount * (pc / 100)) (m / 100), NotePercentBackCapped pc (m / 100)))"
  by (auto simp: percent_offer_def configured_cap_def num_or_def truthy_num_def Let_def
      split: option.splits)

lemma offer_step_percent:
  assumes "passes_filters c p off" and "percent_branch p off"
  shows "offer_step c p (b, ns) off =
           (b + fst (percent_offer (amountCents p / 100) (offer_percent off) (off_value off)),
            ns @ [snd (percent_offer (amountCents p / 100) (offer_percent off) (off_value off))])"
  using assms
  by (auto simp: passes_filters_def percent_branch_def offer_step_def offer_percent_def Let_def
      split: option.splits)

text \<open>
  Claim C6, as the code has it. For a percent-valued \<open>statement_credit\<close> or
  \<open>percent_back\<close> offer that passes the filters, the cap is \<open>max_back_cents\<close> when that
  field is present and not zero, else \<open>max_amount_cents\<close> when that one is present and
  not zero, else there is no cap: the first truthy field wins, and a cap of 0 counts as
  absent. The contribution is the percent of the amount, limited by the cap in dollars.
\<close>

theorem cap_is_first_truthy_field:
  assumes "passes_filters c p off" and "percent_branch p off"
  shows "fst (offer_step c p (b, ns) off) =
           b + (case configured_cap off of
                  None \<Rightarrow> (amountCents p / 100) * (offer_percent off / 100)
                | Some m \<Rightarrow> min ((amountCents p / 100) * (offer_percent off / 100)) (m / 100))"
  by (simp add: offer_step_percent [OF assms] percent_offer_cap split: option.splits)

theorem cap_is_first_truthy_field_witness:
  "fst (offer_step ex_cash ex_params (0, [])
          (ex_offer\<lparr>off_value := Some (ex_value\<lparr>max_amount_cents := Some 2000\<rparr>)\<rparr>)) = 20"
proof -
  let ?off = "ex_offer\<lparr>off_value := Some (ex_value\<lparr>max_amount_cents := Some 2000\<rparr>)\<rparr>"
  have h1: "passes_filters ex_cash ex_params ?off"
    by (simp add: passes_filters_def ex_defs offerActiveNow_def offerAppliesToCard_def
          offerMatchesCategory_def truthy_str_def isWithin_def)
  have h2: "percent_branch ex_params ?off"
    by (simp add: percent_branch_def ex_defs)
  show ?thesis
    using cap_is_first_truthy_field [OF h1 h2, of 0 "[]"]
    by (simp add: configured_cap_def offer_percent_def truthy_num_def number_or_def ex_defs)
qed

text \<open>
  The claim as the specification words it has the first non-null field win, so that
  \<open>max_back_cents = 0\<close> caps the offer at $0.00. It fails: with \<open>max_back_cents = 0\<close> and
  \<open>max_amount_cents = 2000\<close>, 10% back on $500.00 contributes $20.00; and with
  \<open>max_back_cents = 0\<close> alone the offer is not capped at all and contributes $50.00.
\<close>

theorem cap_zero_counterexample:
  "valueFor ex_cash ex_params
     [ex_offer\<lparr>off_value :=
        Some (ex_value\<lparr>max_back_cents := Some 0, max_amount_cents := Some 2000\<rparr>)\<rparr>]
     = \<lparr>dollars = 35, baseValue = 15, bonusValue = 20,
        notesList = [NotePercentBackCapped 10 20]\<rparr>
   \<and> valueFor ex_cash ex_params
     [ex_offer\<lparr>off_value := Some (ex_value\<lparr>max_back_cents := Some 0\<rparr>)\<rparr>]
     = \<lparr>dollars = 65, baseValue = 15, bonusValue = 50, notesList = [NotePercentBack 10]\<rparr>"
  by (simp add: ranker_defs ex_defs)

text \<open>
  Claim C9, as the code has it. For a percent-valued \<open>statement_credit\<close> or
  \<open>percent_back\<close> offer that passes the filters, exactly one note is appended: the
  capped form when a cap is configured (a \<open>max_back_cents\<close> or \<open>max_amount_cents\<close> that is
  present and not zero), whether or not the cap lowers the contribution, and the plain
  form when no cap is configured.
\<close>

theorem capped_note_iff_cap_configured:
  assumes "passes_filters c p off" and "percent_branch p off"
  shows "snd (offer_step c p (b, ns) off) =
           ns @ [case configured_cap off of
                   None \<Rightarrow> NotePercentBack (offer_percent off)
                 | Some m \<Rightarrow> NotePercentBackCapped (offer_percent off) (m / 100)]"
  by (simp add: offer_step_percent [OF assms] percent_offer_cap split: option.splits)

theorem capped_note_iff_cap_configured_witness:
  "snd (offer_step ex_cash ex_params (0, [])
          (ex_offer\<lparr>off_offer_type := ''statement_credit'',
                    off_min_spend_cents := Some 2000,
                    off_value := Some (ex_value\<lparr>max_back_cents := Some 2000\<rparr>)\<rparr>))
     = [NotePercentBackCapped 10 20]"
proof -
  let ?off = "ex_offer\<lparr>off_offer_type := ''statement_credit'',
                        off_min_spend_cents := Some 2000,
                        off_value := Some (ex_value\<lparr>max_back_cents := Some 2000\<rparr>)\<rparr>"
  have h1: "passes_filters ex_cash ex_params ?off"
    by (simp add: passes_filters_def ex_defs offerActiveNow_def offerAppliesToCard_def
          offerMatchesCategory_def truthy_str_def isWithin_def)
  have h2: "percent_branch ex_params ?off"
    by (simp add: percent_branch_def ex_defs truthy_num_def number_or_def)
  show ?thesis
    using capped_note_iff_cap_configured [OF h1 h2, of 0 "[]"]
    by (simp add: configured_cap_def offer_percent_def truthy_num_def number_or_def ex_defs)
qed

text \<open>
  The claim as the specification words it has the capped note only when the cap lowered
  the contribution. It fails: 10% back on $10.00 with a cap of $20.00 contributes the
  raw $1.00, and the note is the capped one.
\<close>

theorem capped_note_counterexample:
  "valueFor ex_cash (ex_params\<lparr>amountCents := 1000\<rparr>)
     [ex_offer\<lparr>off_value := Some (ex_value\<lparr>max_back_cents := Some 2000\<rparr>)\<rparr>]
     = \<lparr>dollars = 3 / 10 + 1, baseValue = 3 / 10, bonusValue = (1000 / 100) * (10 / 100),
        notesList = [NotePercentBackCapped 10 20]\<rparr>"
  by (simp add: ranker_defs ex_defs)

subsection \<open>The rotating window\<close>

lemma scan_rules_first:
  assumes "\<forall>x \<in> set pre. \<not> rule_matches x cat now" and "rule_matches r cat now"
  shows "scan_rules (pre @ r # post) cid cat now ur = Some (resolve_window r cid ur)"
  using assms by (induction pre) simp_all

lemma activeRotatingWindow_scan:
  assumes "card_rotating_rules c = Some (pre @ r # post)"
    and "\<forall>x \<in> set pre. \<not> rule_matches x cat now"
    and "rule_matches r cat now"
  shows "activeRotatingWindow c cat now ur = Some (resolve_window r (card_id c) ur)"
  using assms
  by (auto simp: activeRotatingWindow_def scan_rules_first split: option.splits)

text \<open>
  The test of the code against the window as specified. The code compares the instant,
  as a string, with \<open>start\<close> followed by \<open>T00:00:00Z\<close> and with \<open>end\<close> followed by
  \<open>T23:59:59Z\<close>. Outside the first second of a day this is the specified window.
\<close>

lemma less_append_same_length:
  fixes d s :: string
  assumes "length d = length s"
  shows "d @ t < s @ u \<longleftrightarrow> d < s \<or> (d = s \<and> t < u)"
  using assms by (induction d s rule: list_induct2) auto

lemma code_window_is_spec_window:
  assumes sh: "rule_dates_shaped r" and pf: "past_first_second now"
  shows "isWithin now
           (if truthy_str (rule_start r) then map_option toISOStartOfDay (rule_start r) else None)
           (if truthy_str (rule_end r) then map_option toISOEndOfDay (rule_end r) else None)
         \<longleftrightarrow> spec_window_contains r now"
proof -
  let ?d = "take 10 now" and ?t = "drop 10 now"
  have now: "now = ?d @ ?t" by simp
  have len: "length ?d = 10"
    using pf by (simp add: past_first_second_def)
  have t0: "\<not> ?t < ''T00:00:00Z''" and t1: "\<not> ''T23:59:59Z'' < ?t"
    using pf by (simp_all add: past_first_second_def not_less)
  have lo: "now < s @ ''T00:00:00Z'' \<longleftrightarrow> ?d < s" if "length s = 10" for s
  proof -
    have "?d @ ?t < s @ ''T00:00:00Z'' \<longleftrightarrow> ?d < s \<or> (?d = s \<and> ?t < ''T00:00:00Z'')"
      by (rule less_append_same_length) (insert len that, simp)
    then show ?thesis using t0 by simp
  qed
  then have lo': "s @ ''T00:00:00Z'' \<le> now \<longleftrightarrow> s \<le> ?d" if "length s = 10" for s
    using that by (simp flip: not_less)
  have hi: "e @ ''T23:59:59Z'' < now \<longleftrightarrow> e < ?d" if "length e = 10" for e
  proof -
    have "e @ ''T23:59:59Z'' < ?d @ ?t \<longleftrightarrow> e < ?d \<or> (e = ?d \<and> ''T23:59:59Z'' < ?t)"
      by (rule less_append_same_length) (insert len that, simp)
    then show ?thesis using t1 by simp
  qed
  then have hi': "now \<le> e @ ''T23:59:59Z'' \<longleftrightarrow> ?d \<le> e" if "length e = 10" for e
    using that by (simp flip: not_less)
  show ?thesis
    using sh
    by (auto simp: isWithin_def spec_window_contains_def utc_date_def rule_dates_shaped_def
          date_shaped_def truthy_str_def toISOStartOfDay_def toISOEndOfDay_def lo hi lo' hi' not_less
        split: option.splits)
qed

lemma rule_matches_is_spec:
  assumes "rule_dates_shaped r" and "past_first_second now"
  shows "rule_matches r cat now \<longleftrightarrow> spec_rule_matches r cat now"
  using code_window_is_spec_window [OF assms]
  by (simp add: rule_matches_def spec_rule_matches_def Let_def)

text \<open>
  Outside the first second of a UTC day, the resolver does what is specified. When \<open>r\<close>
  is the first rule in declared order whose window contains the instant and whose
  \<open>category_ids\<close> include the category, the resolver returns the descriptor of \<open>r\<close>,
  whatever rules follow it and whether or not it is active. The descriptor is active
  exactly when activation is not required or the caller's \<open>activated\<close> flag for the card
  is set, and its reason is \<open>"Activation required"\<close> when it is inactive, \<open>null\<close>
  otherwise.
\<close>

theorem activeRotatingWindow_first_spec_match:
  assumes "card_rotating_rules c = Some (pre @ r # post)"
    and "list_all rule_dates_shaped (pre @ [r])"
    and "past_first_second now"
    and "\<forall>x \<in> set pre. \<not> spec_rule_matches x cat now"
    and "spec_rule_matches r cat now"
  shows "activeRotatingWindow c cat now ur = Some (resolve_window r (card_id c) ur)
         \<and> active (resolve_window r (card_id c) ur)
             = (if rule_activation_required r
                then (case ur (card_id c) of None \<Rightarrow> False | Some u \<Rightarrow> u_activated u)
                else True)
         \<and> reason (resolve_window r (card_id c) ur)
             = (if active (resolve_window r (card_id c) ur) then None
                else Some ''Activation required'')"
proof -
  have pre: "\<forall>x \<in> set pre. \<not> rule_matches x cat now"
    using assms(2,3,4) by (simp add: list_all_iff rule_matches_is_spec)
  have r: "rule_matches r cat now"
    using assms(2,3,5) by (simp add: rule_matches_is_spec)
  show ?thesis
    using activeRotatingWindow_scan [OF assms(1) pre r, of ur]
    by (simp add: resolve_window_def Let_def split: option.splits)
qed

theorem activeRotatingWindow_first_spec_match_witness:
  "activeRotatingWindow
     (ex_cash\<lparr>card_rotating_rules :=
        Some ([ex_rule\<lparr>rule_category_ids := Some [''dining'']\<rparr>] @ ex_rule
              # [ex_rule\<lparr>rule_activation_required := False\<rparr>])\<rparr>)
     ''grocery'' ''2025-02-01T10:00:00.000Z'' Map.empty
   = Some \<lparr>active = False, reason = Some ''Activation required'', boostRatePercent = 5,
           afterRatePercent = Some 1, remainingCapCents = 150000\<rparr>"
proof -
  let ?pre = "[ex_rule\<lparr>rule_category_ids := Some [''dining'']\<rparr>]"
  let ?post = "[ex_rule\<lparr>rule_activation_required := False\<rparr>]"
  let ?c = "ex_cash\<lparr>card_rotating_rules := Some (?pre @ ex_rule # ?post)\<rparr>"
  have h1: "card_rotating_rules ?c = Some (?pre @ ex_rule # ?post)"
    by simp
  have h2: "list_all rule_dates_shaped (?pre @ [ex_rule])"
    by (simp add: rule_dates_shaped_def date_shaped_def ex_rule_def)
  have h3: "past_first_second ''2025-02-01T10:00:00.000Z''"
    by (simp add: past_first_second_def)
  have h4: "\<forall>x \<in> set ?pre. \<not> spec_rule_matches x ''grocery'' ''2025-02-01T10:00:00.000Z''"
    by (simp add: spec_rule_matches_def ex_rule_def)
  have h5: "spec_rule_matches ex_rule ''grocery'' ''2025-02-01T10:00:00.000Z''"
    by (simp add: spec_rule_matches_def spec_window_contains_def utc_date_def ex_rule_def)
  show ?thesis
    using activeRotatingWindow_first_spec_match [OF h1 h2 h3 h4 h5, of Map.empty]
    by (simp add: resolve_window_def number_or_def ex_rule_def ex_cash_def)
qed

text \<open>
  Claim C4. The resolver is to return the first rule in declared order whose window
  contains the instant and whose \<open>category_ids\<close> include the category. In the first
  second of the start day of a rule it does not. The instant
  \<open>2025-01-01T00:00:00.000Z\<close> is in the window of a rule that starts on \<open>2025-01-01\<close>
  and ends on \<open>2025-03-31\<close>, and the rule boosts the category; yet the resolver returns
  \<open>null\<close> for a card whose only rule it is, because the instant is, as a string, below
  \<open>2025-01-01T00:00:00Z\<close>. One second later the rule is returned.
\<close>

theorem activeRotatingWindow_start_of_day_missed:
  "spec_rule_matches ex_rule ''grocery'' ''2025-01-01T00:00:00.000Z''
   \<and> activeRotatingWindow (ex_cash\<lparr>card_rotating_rules := Some [ex_rule]\<rparr>)
         ''grocery'' ''2025-01-01T00:00:00.000Z'' Map.empty
       = None
   \<and> activeRotatingWindow (ex_cash\<lparr>card_rotating_rules := Some [ex_rule]\<rparr>)
         ''grocery'' ''2025-01-01T00:00:01.000Z'' Map.empty
       = Some \<lparr>active = False, reason = Some ''Activation required'', boostRatePercent = 5,
               afterRatePercent = Some 1, remainingCapCents = 150000\<rparr>"
  by (simp add: spec_rule_matches_def spec_window_contains_def utc_date_def
        activeRotatingWindow_def rule_matches_def isWithin_def truthy_str_def
        toISOStartOfDay_def toISOEndOfDay_def resolve_window_def number_or_def
        ex_rule_def ex_cash_def)

subsection \<open>Points and miles cards\<close>

lemma rotating_irrelevant:
  "offerAppliesToCard off (c\<lparr>card_rotating_rules := rr\<rparr>) = offerAppliesToCard off c"
  "resolve_cpp (c\<lparr>card_rotating_rules := rr\<rparr>) ov = resolve_cpp c ov"
  "resolve_type (c\<lparr>card_rotating_rules := rr\<rparr>) = resolve_type c"
  "staticMult (c\<lparr>card_rotating_rules := rr\<rparr>) cat = staticMult c cat"
  by (simp_all add: offerAppliesToCard_def resolve_cpp_def resolve_type_def staticMult_def
      cong: option.case_cong card_scope.case_cong)

lemma offer_step_no_rotating:
  "offer_step (c\<lparr>card_rotating_rules := rr\<rparr>) (p\<lparr>userRotating := ur\<rparr>) = offer_step c p"
  by (intro ext) (simp add: offer_step_def rotating_irrelevant Let_def cong: if_cong)

text \<open>
  Claim C7. For a card whose type is \<open>points\<close> or \<open>miles\<close> the base value is
  \<open>amount \<times> staticMultiplier \<times> cpp / 100\<close>, and the whole valuation is the same whatever
  the card's \<open>rotating_rules\<close> and the caller's \<open>userRotating\<close> are.
\<close>

theorem points_card_ignores_rotating:
  assumes "card_type c = Some ''points'' \<or> card_type c = Some ''miles''"
  shows "baseValue (valueFor c p offs)
           = (amountCents p / 100) * staticMult c (categoryId p)
               * (resolve_cpp c (programOverrides p) / 100)
         \<and> valueFor (c\<lparr>card_rotating_rules := rr\<rparr>) (p\<lparr>userRotating := ur\<rparr>) offs
           = valueFor c p offs"
proof -
  have t: "resolve_type c \<noteq> ''cashback''"
    using assms by (auto simp: resolve_type_def)
  have b: "base_earnings c p
             = ((amountCents p / 100) * staticMult c (categoryId p)
                  * (resolve_cpp c (programOverrides p) / 100), 0, [])"
    using t by (simp add: base_earnings_def Let_def)
  have b': "base_earnings (c\<lparr>card_rotating_rules := rr\<rparr>) (p\<lparr>userRotating := ur\<rparr>)
              = base_earnings c p"
    using t by (simp add: base_earnings_def rotating_irrelevant Let_def cong: if_cong)
  show ?thesis
    by (simp add: valueFor_def b' offer_step_no_rotating b split: prod.splits)
qed

theorem points_card_ignores_rotating_witness:
  "baseValue (valueFor ex_points ex_params [ex_offer]) = 500 * 2 * ((5 / 4) / 100)
   \<and> valueFor (ex_points\<lparr>card_rotating_rules := Some [ex_rule]\<rparr>)
        (ex_params\<lparr>userRotating :=
           [''pts'' \<mapsto> \<lparr>u_activated = True, u_remainingCapCents = Some 100000\<rparr>]\<rparr>)
        [ex_offer]
     = valueFor ex_points ex_params [ex_offer]"
proof -
  have h: "card_type ex_points = Some ''points'' \<or> card_type ex_points = Some ''miles''"
    by (simp add: ex_points_def)
  show ?thesis
    using points_card_ignores_rotating [OF h, of ex_params "[ex_offer]" "Some [ex_rule]"
        "[''pts'' \<mapsto> \<lparr>u_activated = True, u_remainingCapCents = Some 100000\<rparr>]"]
    by (simp add: staticMult_def resolve_cpp_def CPP_DEFAULTS_def ex_points_def ex_params_def)
qed

subsection \<open>The enrollment gate\<close>

lemma valueFor_alt:
  "valueFor c p offs =
     \<lparr>dollars = fst (base_earnings c p)
                  + fst (foldl (offer_step c p) (snd (base_earnings c p)) offs),
      baseValue = fst (base_earnings c p),
      bonusValue = fst (foldl (offer_step c p) (snd (base_earnings c p)) offs),
      notesList = snd (foldl (offer_step c p) (snd (base_earnings c p)) offs)\<rparr>"
  by (simp add: valueFor_def case_prod_beta)

lemma percent_offer_note:
  "snd (percent_offer a pc v) \<noteq> NoteRequiresEnrollment"
  "NoteRequiresEnrollment \<noteq> snd (percent_offer a pc v)"
  by (simp_all add: percent_offer_def Let_def split: option.splits)

lemma offer_step_not_enrolled:
  assumes "not_enrolled p off"
  shows "fst (offer_step c p st off) = fst st"
    and "filter (\<lambda>n. n \<noteq> NoteRequiresEnrollment) (snd (offer_step c p st off))
           = filter (\<lambda>n. n \<noteq> NoteRequiresEnrollment) (snd st)"
  using assms by (simp_all add: offer_step_def not_enrolled_def Let_def)

text \<open>
  An offer that is not stopped at the enrollment gate adds an amount and some notes that
  depend on neither the bonus nor the notes so far; none of the notes is the enrollment
  note.
\<close>

lemma offer_step_enrolled:
  assumes "\<not> not_enrolled p off"
  shows "\<exists>d es. NoteRequiresEnrollment \<notin> set es
           \<and> (\<forall>st. offer_step c p st off = (fst st + d, snd st @ es))"
proof -
  let ?d = "fst (offer_step c p (0, []) off)"
  let ?es = "snd (offer_step c p (0, []) off)"
  have "NoteRequiresEnrollment \<notin> set ?es"
    using assms
    by (auto simp: offer_step_def not_enrolled_def Let_def percent_offer_note
        split: option.splits)
  moreover have "offer_step c p st off = (fst st + ?d, snd st @ ?es)" for st
    using assms
    by (cases st) (auto simp: offer_step_def not_enrolled_def Let_def split: option.splits)
  ultimately show ?thesis by blast
qed

lemma foldl_offer_step_drop_unenrolled:
  assumes "fst st = fst st'"
    and "filter (\<lambda>n. n \<noteq> NoteRequiresEnrollment) (snd st) = snd st'"
  shows "fst (foldl (offer_step c p) st offs)
           = fst (foldl (offer_step c p) st' (filter (\<lambda>x. \<not> not_enrolled p x) offs))
         \<and> filter (\<lambda>n. n \<noteq> NoteRequiresEnrollment) (snd (foldl (offer_step c p) st offs))
           = snd (foldl (offer_step c p) st' (filter (\<lambda>x. \<not> not_enrolled p x) offs))"
  using assms
proof (induction offs arbitrary: st st')
  case Nil
  then show ?case by simp
next
  case (Cons off offs)
  show ?case
  proof (cases "not_enrolled p off")
    case True
    have "fst (offer_step c p st off) = fst st'"
      and "filter (\<lambda>n. n \<noteq> NoteRequiresEnrollment) (snd (offer_step c p st off)) = snd st'"
      using offer_step_not_enrolled [OF True, of c st] Cons.prems by simp_all
    from Cons.IH [OF this] True show ?thesis by simp
  next
    case False
    from offer_step_enrolled [OF False, of c] obtain d es
      where es: "NoteRequiresEnrollment \<notin> set es"
        and step: "\<And>s. offer_step c p s off = (fst s + d, snd s @ es)"
      by blast
    have f: "filter (\<lambda>n. n \<noteq> NoteRequiresEnrollment) es = es"
      using es by (simp add: filter_id_conv) blast
    have "fst (offer_step c p st off) = fst (offer_step c p st' off)"
      and "filter (\<lambda>n. n \<noteq> NoteRequiresEnrollment) (snd (offer_step c p st off))
             = snd (offer_step c p st' off)"
      using Cons.prems f by (simp_all add: step)
    from Cons.IH [OF this] False show ?thesis by simp
  qed
qed

lemma offer_step_count:
  "count_list (snd (offer_step c p st off)) NoteRequiresEnrollment
     = (if enrollment_gated c p off \<and> NoteRequiresEnrollment \<notin> set (snd st)
        then 1 else count_list (snd st) NoteRequiresEnrollment)"
proof (cases "not_enrolled p off")
  case True
  then show ?thesis
    by (auto simp: offer_step_def enrollment_gated_def not_enrolled_def Let_def
          count_list_0_iff)
next
  case False
  from offer_step_enrolled [OF False, of c] obtain d es
    where es: "NoteRequiresEnrollment \<notin> set es"
      and step: "\<And>s. offer_step c p s off = (fst s + d, snd s @ es)"
    by blast
  from es have "count_list es NoteRequiresEnrollment = 0"
    by (simp add: count_list_0_iff)
  with False show ?thesis
    by (simp add: step enrollment_gated_def)
qed

lemma foldl_offer_step_count:
  "count_list (snd (foldl (offer_step c p) st offs)) NoteRequiresEnrollment
     = (if NoteRequiresEnrollment \<notin> set (snd st) \<and> (\<exists>x \<in> set offs. enrollment_gated c p x)
        then 1 else count_list (snd st) NoteRequiresEnrollment)"
proof (induction offs arbitrary: st)
  case Nil
  then show ?case by simp
next
  case (Cons off offs)
  let ?s = "offer_step c p st off"
  have mem: "NoteRequiresEnrollment \<in> set (snd ?s)
               \<longleftrightarrow> enrollment_gated c p off \<or> NoteRequiresEnrollment \<in> set (snd st)"
    using offer_step_count [of c p st off] count_list_0_iff [of "snd ?s" NoteRequiresEnrollment]
      count_list_0_iff [of "snd st" NoteRequiresEnrollment]
    by (auto split: if_splits)
  show ?case
    using Cons.IH [of ?s] mem offer_step_count [of c p st off]
    by (auto split: if_splits)
qed

lemma base_earnings_notes: "NoteRequiresEnrollment \<notin> set (snd (snd (base_earnings c p)))"
  by (simp add: base_earnings_def Let_def split: option.splits)

text \<open>
  Claim C3. In every call to \<open>valueFor\<close>, the offers that require enrollment and are not
  enrolled contribute nothing: the bonus value and the total are those of the call
  without them, and so are the notes apart from the enrollment note. The note
  \<open>"Offer requires enrollment"\<close> is in the notes exactly once when at least one offer is
  skipped at the enrollment gate, however many are, and not at all when none is.
\<close>

theorem enrollment_gate_once:
  "bonusValue (valueFor c p offs)
     = bonusValue (valueFor c p (filter (\<lambda>x. \<not> not_enrolled p x) offs))
   \<and> dollars (valueFor c p offs)
     = dollars (valueFor c p (filter (\<lambda>x. \<not> not_enrolled p x) offs))
   \<and> filter (\<lambda>n. n \<noteq> NoteRequiresEnrollment) (notesList (valueFor c p offs))
     = notesList (valueFor c p (filter (\<lambda>x. \<not> not_enrolled p x) offs))
   \<and> count_list (notesList (valueFor c p offs)) NoteRequiresEnrollment
     = (if \<exists>x \<in> set offs. enrollment_gated c p x then 1 else 0)"
proof -
  let ?s0 = "snd (base_earnings c p)"
  have n0: "NoteRequiresEnrollment \<notin> set (snd ?s0)"
    by (rule base_earnings_notes)
  then have f0: "filter (\<lambda>n. n \<noteq> NoteRequiresEnrollment) (snd ?s0) = snd ?s0"
    by (simp add: filter_id_conv) blast
  have drop: "fst (foldl (offer_step c p) ?s0 offs)
           = fst (foldl (offer_step c p) ?s0 (filter (\<lambda>x. \<not> not_enrolled p x) offs))
         \<and> filter (\<lambda>n. n \<noteq> NoteRequiresEnrollment) (snd (foldl (offer_step c p) ?s0 offs))
           = snd (foldl (offer_step c p) ?s0 (filter (\<lambda>x. \<not> not_enrolled p x) offs))"
    by (rule foldl_offer_step_drop_unenrolled) (simp_all add: f0)
  have cnt: "count_list (snd (foldl (offer_step c p) ?s0 offs)) NoteRequiresEnrollment
     = (if \<exists>x \<in> set offs. enrollment_gated c p x then 1 else 0)"
    using foldl_offer_step_count [of c p ?s0 offs] n0
    by (simp add: count_list_0_iff)
  show ?thesis
    using drop cnt by (simp add: valueFor_alt)
qed

theorem enrollment_gate_once_witness:
  "bonusValue (valueFor ex_cash ex_params
     [ex_offer\<lparr>off_id := ''g1'', off_enrollment_required := True\<rparr>,
      ex_offer,
      ex_offer\<lparr>off_id := ''g2'', off_enrollment_required := True\<rparr>])
     = bonusValue (valueFor ex_cash ex_params [ex_offer])
   \<and> count_list (notesList (valueFor ex_cash ex_params
        [ex_offer\<lparr>off_id := ''g1'', off_enrollment_required := True\<rparr>,
         ex_offer,
         ex_offer\<lparr>off_id := ''g2'', off_enrollment_required := True\<rparr>]))
       NoteRequiresEnrollment = 1"
  using enrollment_gate_once [of ex_cash ex_params
      "[ex_offer\<lparr>off_id := ''g1'', off_enrollment_required := True\<rparr>,
        ex_offer,
        ex_offer\<lparr>off_id := ''g2'', off_enrollment_required := True\<rparr>]"]
  by (simp add: not_enrolled_def enrollment_gated_def offerActiveNow_def offerAppliesToCard_def
        offerMatchesCategory_def truthy_str_def isWithin_def ex_offer_def ex_params_def)

subsection \<open>The ranking\<close>

lemma compareResults_le:
  "compareResults a b \<le> 0 \<longleftrightarrow> rank_key a \<le> rank_key b"
  by (auto simp: compareResults_def rank_key_def)

lemma sort_insert_insort_key:
  "sort_insert compareResults x ys = insort_key rank_key x ys"
  by (induction ys) (simp_all add: compareResults_le)

lemma array_sort_sort_key:
  "array_sort compareResults xs = sort_key rank_key xs"
proof -
  have "sort_insert compareResults = insort_key rank_key"
    by (intro ext) (rule sort_insert_insort_key)
  then show ?thesis
    by (simp add: array_sort_def sort_key_def)
qed

lemma rank_key_le:
  "rank_key a \<le> rank_key b \<longleftrightarrow>
     dollars b < dollars a \<or> (dollars a = dollars b \<and> bonusValue b \<le> bonusValue a)"
  by (auto simp: rank_key_def)

lemma rank_key_eq:
  "rank_key r = (- d, - b) \<longleftrightarrow> dollars r = d \<and> bonusValue r = b"
  by (auto simp: rank_key_def)

text \<open>
  Claim C1. For every wallet, \<open>rankCards\<close> returns one result per card, each the
  valuation of its card with the card attached; the list is sorted descending by
  \<open>dollars\<close>, ties broken descending by \<open>bonusValue\<close>; the results equal on both fields
  are in the order of their cards in the wallet; and an empty wallet gives an empty list.
\<close>

theorem rankCards_sorted_stable:
  "length (rankCards cards p obc) = length cards
   \<and> mset (rankCards cards p obc) = mset (map (rank_entry p obc) cards)
   \<and> (\<forall>c. card (rank_entry p obc c) = c
          \<and> dollars (rank_entry p obc c) = dollars (valueFor c p (offers_for obc c))
          \<and> baseValue (rank_entry p obc c) = baseValue (valueFor c p (offers_for obc c))
          \<and> bonusValue (rank_entry p obc c) = bonusValue (valueFor c p (offers_for obc c))
          \<and> notesList (rank_entry p obc c) = notesList (valueFor c p (offers_for obc c)))
   \<and> sorted_wrt (\<lambda>a b. dollars b < dollars a
                        \<or> (dollars a = dollars b \<and> bonusValue b \<le> bonusValue a))
        (rankCards cards p obc)
   \<and> (\<forall>d b. filter (\<lambda>r. dollars r = d \<and> bonusValue r = b) (rankCards cards p obc)
             = filter (\<lambda>r. dollars r = d \<and> bonusValue r = b) (map (rank_entry p obc) cards))
   \<and> rankCards [] p obc = []"
proof -
  let ?xs = "map (rank_entry p obc) cards"
  have r: "rankCards cards p obc = sort_key rank_key ?xs"
    by (simp add: rankCards_def array_sort_sort_key)
  have "sorted (map rank_key (sort_key rank_key ?xs))"
    by (rule sorted_sort_key)
  then have s: "sorted_wrt (\<lambda>a b. dollars b < dollars a
                        \<or> (dollars a = dollars b \<and> bonusValue b \<le> bonusValue a))
        (sort_key rank_key ?xs)"
    by (simp add: sorted_map rank_key_le)
  have st: "filter (\<lambda>r. dollars r = d \<and> bonusValue r = b) (sort_key rank_key ?xs)
             = filter (\<lambda>r. dollars r = d \<and> bonusValue r = b) ?xs" for d b
    using sort_key_stable [of rank_key "(- d, - b)" ?xs] by (simp add: rank_key_eq)
  have e: "rankCards [] p obc = []"
    by (simp add: rankCards_def array_sort_def)
  have v: "card (rank_entry p obc c) = c
          \<and> dollars (rank_entry p obc c) = dollars (valueFor c p (offers_for obc c))
          \<and> baseValue (rank_entry p obc c) = baseValue (valueFor c p (offers_for obc c))
          \<and> bonusValue (rank_entry p obc c) = bonusValue (valueFor c p (offers_for obc c))
          \<and> notesList (rank_entry p obc c) = notesList (valueFor c p (offers_for obc c))" for c
    by (simp add: rank_entry_def Let_def)
  show ?thesis
    using s st e v by (simp add: r)
qed

theorem rankCards_sorted_stable_witness:
  "map (\<lambda>r. (card_id (card r), dollars r, bonusValue r))
     (rankCards ex_wallet ex_params ex_offers_by_card)
   = [(''cash5'', 25, 0), (''cashb'', 15, 10), (''cash'', 15, 0), (''cash2'', 15, 0),
      (''pts'', 25 / 2, 0)]"
  using rankCards_sorted_stable [of ex_wallet ex_params ex_offers_by_card]
  by (simp add: rankCards_def array_sort_def compareResults_def rank_entry_def offers_for_def
        ex_wallet_def ex_offers_by_card_def ranker_defs ex_defs)

subsection \<open>Monotonicity in the amount\<close>

lemma number_or_nonneg: "nonneg v \<Longrightarrow> 0 \<le> d \<Longrightarrow> 0 \<le> number_or v d"
  by (auto simp: nonneg_def number_or_def split: option.splits)

lemma staticMult_nonneg: "card_nonneg c p \<Longrightarrow> 0 \<le> staticMult c (categoryId p)"
  by (auto simp: card_nonneg_def staticMult_def nonneg_def number_or_def Let_def
      split: option.splits)

lemma CPP_DEFAULTS_nonneg: "CPP_DEFAULTS k = Some v \<Longrightarrow> 0 \<le> v"
  by (auto simp: CPP_DEFAULTS_def split: if_splits)

lemma resolve_cpp_nonneg: "card_nonneg c p \<Longrightarrow> 0 \<le> resolve_cpp c (programOverrides p)"
  by (auto simp: card_nonneg_def resolve_cpp_def nonneg_def split: option.splits
      dest: CPP_DEFAULTS_nonneg)

lemma scan_rules_nonneg:
  assumes "list_all rule_nonneg rs" and "scan_rules rs cid cat now ur = Some w"
  shows "0 \<le> boostRatePercent w \<and> nonneg (afterRatePercent w)"
  using assms
proof (induction rs)
  case Nil
  then show ?case by simp
next
  case (Cons r rs)
  show ?case
  proof (cases "rule_matches r cat now")
    case True
    with Cons.prems have "w = resolve_window r cid ur" and "rule_nonneg r"
      by simp_all
    then show ?thesis
      by (simp add: resolve_window_def rule_nonneg_def number_or_nonneg Let_def)
  next
    case False
    with Cons show ?thesis by simp
  qed
qed

lemma window_nonneg:
  assumes "card_nonneg c p"
    and "activeRotatingWindow c cat now ur = Some w"
  shows "0 \<le> boostRatePercent w \<and> nonneg (afterRatePercent w)"
  using assms scan_rules_nonneg [of _ "card_id c" cat now ur w]
  by (auto simp: activeRotatingWindow_def card_nonneg_def split: option.splits if_splits)

lemma cap_split_mono:
  assumes "a \<le> a'" and "0 \<le> bp" and "0 \<le> sp"
  shows "baseVal (applyCapSplitPercent a bp sp r) + boostVal (applyCapSplitPercent a bp sp r)
         \<le> baseVal (applyCapSplitPercent a' bp sp r) + boostVal (applyCapSplitPercent a' bp sp r)"
proof -
  let ?R = "max 0 r"
  have 1: "min a ?R \<le> min a' ?R"
    using assms(1) by simp
  have 2: "a - min a ?R \<le> a' - min a' ?R"
    using assms(1) by (auto simp: min_def max_def)
  have "((a - min a ?R) / 100) * (sp / 100) \<le> ((a' - min a' ?R) / 100) * (sp / 100)"
    using 2 assms(3) by (intro mult_right_mono) simp_all
  moreover have "(min a ?R / 100) * (bp / 100) \<le> (min a' ?R / 100) * (bp / 100)"
    using 1 assms(2) by (intro mult_right_mono) simp_all
  ultimately show ?thesis
    by (simp add: applyCapSplitPercent_def Let_def)
qed

lemma base_total_mono:
  assumes "card_nonneg c p" and "a \<le> a'"
  shows "base_total c (p\<lparr>amountCents := a\<rparr>) \<le> base_total c (p\<lparr>amountCents := a'\<rparr>)"
proof -
  have m: "0 \<le> staticMult c (categoryId p)"
    by (rule staticMult_nonneg [OF assms(1)])
  have k: "0 \<le> resolve_cpp c (programOverrides p)"
    by (rule resolve_cpp_nonneg [OF assms(1)])
  have pts: "(a / 100) * staticMult c (categoryId p) * (resolve_cpp c (programOverrides p) / 100)
        \<le> (a' / 100) * staticMult c (categoryId p) * (resolve_cpp c (programOverrides p) / 100)"
    using assms(2) m k by (intro mult_right_mono) simp_all
  have cash: "(a / 100) * (staticMult c (categoryId p) / 100)
        \<le> (a' / 100) * (staticMult c (categoryId p) / 100)"
    using assms(2) m by (intro mult_right_mono) simp_all
  show ?thesis
  proof (cases "resolve_type c = ''cashback''")
    case False
    then show ?thesis
      using pts by (simp add: base_total_def base_earnings_def Let_def)
  next
    case True
    show ?thesis
    proof (cases "activeRotatingWindow c (categoryId p) (nowISO p) (userRotating p)")
      case None
      then show ?thesis
        using True cash by (simp add: base_total_def base_earnings_def Let_def)
    next
      case (Some w)
      show ?thesis
      proof (cases "active w")
        case False
        then show ?thesis
          using True Some cash by (simp add: base_total_def base_earnings_def Let_def)
      next
        case act: True
        from window_nonneg [OF assms(1) Some]
        have bp: "0 \<le> boostRatePercent w" and ap: "nonneg (afterRatePercent w)"
          by simp_all
        let ?ap = "case afterRatePercent w of Some x \<Rightarrow> x | None \<Rightarrow> staticMult c (categoryId p)"
        have "0 \<le> ?ap"
          using ap m by (simp add: nonneg_def split: option.splits)
        from cap_split_mono [OF assms(2) bp this, of "remainingCapCents w"]
        show ?thesis
          using True Some act by (simp add: base_total_def base_earnings_def Let_def)
      qed
    qed
  qed
qed

lemma percent_offer_mono:
  assumes "0 \<le> pc" and "x \<le> y"
  shows "fst (percent_offer x pc v) \<le> fst (percent_offer y pc v)"
proof -
  have "x * (pc / 100) \<le> y * (pc / 100)"
    using assms by (intro mult_right_mono) simp_all
  then show ?thesis
    by (auto simp: percent_offer_def Let_def min_def split: option.splits)
qed

lemma percent_offer_nonneg:
  assumes "0 \<le> pc" and "0 \<le> y"
    and "case v of None \<Rightarrow> True
         | Some w \<Rightarrow> nonneg (max_back_cents w) \<and> nonneg (max_amount_cents w)"
  shows "0 \<le> fst (percent_offer y pc v)"
  using assms
  by (auto simp: percent_offer_def Let_def num_or_def nonneg_def truthy_num_def
      split: option.splits if_splits)

lemma offer_step_fst:
  "fst (offer_step c p st off) = fst st + fst (offer_step c p (0, []) off)"
proof (cases "not_enrolled p off")
  case True
  then show ?thesis
    by (simp add: offer_step_not_enrolled(1))
next
  case False
  from offer_step_enrolled [OF False, of c] obtain d es
    where "\<And>s. offer_step c p s off = (fst s + d, snd s @ es)"
    by blast
  then show ?thesis by simp
qed

lemma foldl_offer_step_fst:
  "fst (foldl (offer_step c p) st offs)
     = fst st + sum_list (map (\<lambda>x. fst (offer_step c p (0, []) x)) offs)"
proof (induction offs arbitrary: st)
  case Nil
  then show ?case by simp
next
  case (Cons off offs)
  show ?case
    using Cons.IH [of "offer_step c p st off"] offer_step_fst [of c p st off]
    by simp
qed

lemma offer_step_skip:
  "\<not> passes_filters c p off \<Longrightarrow> fst (offer_step c p st off) = fst st"
  by (auto simp: passes_filters_def offer_step_def Let_def)

lemma passes_filters_amount:
  "passes_filters c (p\<lparr>amountCents := a\<rparr>) off = passes_filters c p off"
  by (simp add: passes_filters_def)

lemma offer_step_pass:
  assumes "passes_filters c p off"
  shows "fst (offer_step c p (0, []) off) =
     (if off_offer_type off = ''statement_credit'' then
        (if number_or (off_min_spend_cents off) 0 \<le> amountCents p then
           (case off_value off of
              None \<Rightarrow> 0
            | Some v \<Rightarrow>
                if truthy_num (fixed_amount v) then number_or (fixed_amount v) 0 / 100
                else if truthy_num (percent v)
                then fst (percent_offer (amountCents p / 100) (offer_percent off) (off_value off))
                else 0)
         else 0)
      else if off_offer_type off = ''percent_back'' then
        fst (percent_offer (amountCents p / 100) (offer_percent off) (off_value off))
      else if off_offer_type off = ''points_multiplier'' then
        (let extraX = number_or (case off_value off of None \<Rightarrow> None
                                 | Some v \<Rightarrow> points_multiplier v) 0
         in if resolve_type c = ''cashback'' then (amountCents p / 100) * (extraX / 100)
            else (amountCents p / 100) * extraX * (resolve_cpp c (programOverrides p) / 100))
      else 0)"
  using assms
  by (auto simp: passes_filters_def offer_step_def offer_percent_def Let_def
      split: option.splits)

lemma offer_delta_mono:
  assumes c: "card_nonneg c p" and o: "offer_nonneg off" and f: "credit_nonneg off"
    and a0: "0 \<le> a" and aa: "a \<le> a'"
  shows "fst (offer_step c (p\<lparr>amountCents := a\<rparr>) (0, []) off)
         \<le> fst (offer_step c (p\<lparr>amountCents := a'\<rparr>) (0, []) off)"
proof (cases "passes_filters c p off")
  case False
  then show ?thesis
    by (simp add: offer_step_skip passes_filters_amount)
next
  case True
  let ?v = "off_value off"
  let ?pc = "offer_percent off"
  let ?x = "number_or (case ?v of None \<Rightarrow> None | Some v \<Rightarrow> points_multiplier v) 0"
  let ?k = "resolve_cpp c (programOverrides p)"
  have pc: "0 \<le> ?pc"
    using o by (auto simp: offer_nonneg_def offer_percent_def nonneg_def number_or_def
        split: option.splits)
  have x: "0 \<le> ?x"
    using o by (auto simp: offer_nonneg_def nonneg_def number_or_def split: option.splits)
  have k: "0 \<le> ?k"
    by (rule resolve_cpp_nonneg [OF c])
  have caps: "case ?v of None \<Rightarrow> True
              | Some w \<Rightarrow> nonneg (max_back_cents w) \<and> nonneg (max_amount_cents w)"
    using o by (simp add: offer_nonneg_def split: option.splits)
  have a0': "0 \<le> a'"
    using a0 aa by simp
  have pm: "fst (percent_offer (a / 100) ?pc ?v) \<le> fst (percent_offer (a' / 100) ?pc ?v)"
    using aa by (intro percent_offer_mono [OF pc]) simp
  have pn: "0 \<le> fst (percent_offer (a' / 100) ?pc ?v)"
    using a0' by (intro percent_offer_nonneg [OF pc _ caps]) simp
  have fx: "0 \<le> number_or (fixed_amount v) 0 / 100" if "?v = Some v" for v
    using f that by (simp add: credit_nonneg_def number_or_nonneg)
  have m1: "(a / 100) * (?x / 100) \<le> (a' / 100) * (?x / 100)"
    using aa x by (intro mult_right_mono) simp_all
  have m2: "(a / 100) * ?x * (?k / 100) \<le> (a' / 100) * ?x * (?k / 100)"
    using aa x k by (intro mult_right_mono) simp_all
  have T: "passes_filters c (p\<lparr>amountCents := a\<rparr>) off"
    "passes_filters c (p\<lparr>amountCents := a'\<rparr>) off"
    using True by (simp_all add: passes_filters_amount)
  consider (sc) "off_offer_type off = ''statement_credit''"
    | (pb) "off_offer_type off = ''percent_back''"
    | (pt) "off_offer_type off = ''points_multiplier''"
    | (other) "off_offer_type off \<noteq> ''statement_credit''"
        "off_offer_type off \<noteq> ''percent_back''" "off_offer_type off \<noteq> ''points_multiplier''"
    by blast
  then show ?thesis
  proof cases
    case sc
    show ?thesis
    proof (cases ?v)
      case None
      then show ?thesis
        using sc by (simp add: offer_step_pass [OF T(1)] offer_step_pass [OF T(2)])
    next
      case (Some v)
      show ?thesis
        using sc Some pm pn fx [OF Some] aa
        by (simp add: offer_step_pass [OF T(1)] offer_step_pass [OF T(2)])
    qed
  next
    case pb
    then show ?thesis
      using pm by (simp add: offer_step_pass [OF T(1)] offer_step_pass [OF T(2)])
  next
    case pt
    then show ?thesis
      using m1 m2 by (simp add: offer_step_pass [OF T(1)] offer_step_pass [OF T(2)] Let_def)
  next
    case other
    then show ?thesis
      by (simp add: offer_step_pass [OF T(1)] offer_step_pass [OF T(2)])
  qed
qed

text \<open>
  Claim C8, as the code has it. With the rates, multipliers and caps of the card and of
  the offers non-negative, and the fixed statement credits non-negative too, \<open>dollars\<close>
  does not decrease when the amount (a non-negative number of cents) increases, everything
  else being fixed.
\<close>

theorem dollars_monotone:
  assumes "card_nonneg c p" and "list_all offer_nonneg offs" and "list_all credit_nonneg offs"
    and "0 \<le> a" and "a \<le> a'"
  shows "dollars (valueFor c (p\<lparr>amountCents := a\<rparr>) offs)
         \<le> dollars (valueFor c (p\<lparr>amountCents := a'\<rparr>) offs)"
proof -
  have d: "dollars (valueFor c q offs)
             = base_total c q + sum_list (map (\<lambda>x. fst (offer_step c q (0, []) x)) offs)" for q
    by (simp add: valueFor_alt foldl_offer_step_fst base_total_def)
  have "sum_list (map (\<lambda>x. fst (offer_step c (p\<lparr>amountCents := a\<rparr>) (0, []) x)) offs)
        \<le> sum_list (map (\<lambda>x. fst (offer_step c (p\<lparr>amountCents := a'\<rparr>) (0, []) x)) offs)"
    using assms(2,3)
    by (intro sum_list_mono offer_delta_mono [OF assms(1) _ _ assms(4,5)])
       (simp_all add: list_all_iff)
  moreover have "base_total c (p\<lparr>amountCents := a\<rparr>) \<le> base_total c (p\<lparr>amountCents := a'\<rparr>)"
    by (rule base_total_mono [OF assms(1,5)])
  ultimately show ?thesis
    by (simp add: d)
qed

theorem dollars_monotone_witness:
  "dollars (valueFor (ex_cash\<lparr>card_rotating_rules := Some [ex_rule]\<rparr>)
      (ex_params\<lparr>userRotating := [''cash'' \<mapsto> \<lparr>u_activated = True,
                                                u_remainingCapCents = Some 100000\<rparr>],
                 amountCents := 500\<rparr>)
      [ex_credit, ex_offer\<lparr>off_value := Some (ex_value\<lparr>max_back_cents := Some 2000\<rparr>)\<rparr>])
   \<le> dollars (valueFor (ex_cash\<lparr>card_rotating_rules := Some [ex_rule]\<rparr>)
      (ex_params\<lparr>userRotating := [''cash'' \<mapsto> \<lparr>u_activated = True,
                                                u_remainingCapCents = Some 100000\<rparr>],
                 amountCents := 200000\<rparr>)
      [ex_credit, ex_offer\<lparr>off_value := Some (ex_value\<lparr>max_back_cents := Some 2000\<rparr>)\<rparr>])"
proof -
  let ?c = "ex_cash\<lparr>card_rotating_rules := Some [ex_rule]\<rparr>"
  let ?p = "ex_params\<lparr>userRotating := [''cash'' \<mapsto> \<lparr>u_activated = True,
                                                     u_remainingCapCents = Some 100000\<rparr>]\<rparr>"
  let ?offs = "[ex_credit, ex_offer\<lparr>off_value := Some (ex_value\<lparr>max_back_cents := Some 2000\<rparr>)\<rparr>]"
  have h1: "card_nonneg ?c ?p"
    by (simp add: card_nonneg_def rule_nonneg_def nonneg_def ex_defs)
  have h2: "list_all offer_nonneg ?offs"
    by (simp add: offer_nonneg_def nonneg_def ex_credit_def ex_defs)
  have h3: "list_all credit_nonneg ?offs"
    by (simp add: credit_nonneg_def nonneg_def ex_credit_def ex_defs)
  have h4: "(0::rat) \<le> 500" and h5: "(500::rat) \<le> 200000"
    by simp_all
  show ?thesis
    using dollars_monotone [OF h1 h2 h3 h4 h5] by simp
qed

text \<open>
  The claim as the specification words it asks only for non-negative rates, multipliers
  and caps. It fails: a statement credit with a negative fixed amount and a minimum
  spend of $10.00, on a 3% cashback card, gives $0.15 for a $5.00 purchase and $-4.70
  for a $10.00 purchase.
\<close>

theorem dollars_monotone_counterexample:
  "card_nonneg ex_cash ex_params \<and> offer_nonneg ex_negative_credit
   \<and> dollars (valueFor ex_cash (ex_params\<lparr>amountCents := 500\<rparr>) [ex_negative_credit]) = 3 / 20
   \<and> dollars (valueFor ex_cash (ex_params\<lparr>amountCents := 1000\<rparr>) [ex_negative_credit])
       = - (47 / 10)
   \<and> dollars (valueFor ex_cash (ex_params\<lparr>amountCents := 1000\<rparr>) [ex_negative_credit])
       < dollars (valueFor ex_cash (ex_params\<lparr>amountCents := 500\<rparr>) [ex_negative_credit])"
  by (simp add: card_nonneg_def offer_nonneg_def nonneg_def ex_negative_credit_def
        ranker_defs ex_defs)

end
